theory Spec2Isabelle
  imports Complex_Main
begin

section \<open>The particle ring of \<open>src/index.js\<close>\<close>

text \<open>
  The file holds two revisions of the same module. Their particle-ring parts (section 8 of
  the script, lines 100-170 and 335-393) and their animation loops (lines 213-246 and
  422-451) differ only in literals: \<open>innerRadius\<close> is 2 or 3 and the speed literal is 0.1
  or 0.4. The model takes these literals as a \<open>config\<close>, so that one development covers
  both revisions and the statements that quantify over the inputs.

  JavaScript numbers are modelled by real numbers: rounding of doubles, and the rounding to
  single precision of a \<open>Float32Array\<close> store, are left out. Reals have no \<open>Infinity\<close> and
  no \<open>NaN\<close>, so a run on which the script divides by zero is a result of its own
  (\<open>NonFinite\<close>) rather than a real number.

  The exceptions of the language are results as well: the \<open>RangeError\<close> of an array that is
  too long, the \<open>TypeError\<close> of a property of \<open>undefined\<close>. A host that runs out of memory
  for the particle objects ends the process without an exception; that is outside the model.
\<close>

subsection \<open>Data\<close>

text \<open>A \<open>THREE.Color\<close>: three channels.\<close>

record color =
  r :: real
  g :: real
  b :: real

text \<open>An element of \<open>particlesData\<close>: the object literal \<open>{ radius, angle, speed }\<close>.\<close>

record particle =
  radius :: real
  angle :: real
  speed :: real

text \<open>
  The module-level constants of section 8. \<open>speedConstant\<close> is the numerator of the
  speed, a literal in the source (\<open>0.4 / radius\<close>, \<open>0.1 / radius\<close> in the earlier revision).
\<close>

record config =
  particleCount :: int
  innerRadius :: real
  outerRadius :: real
  speedConstant :: real
  color1 :: color
  color2 :: color
  color3 :: color

text \<open>
  The mutable module state the animation loop works on. \<open>positions\<close> and \<open>colors\<close> are the
  two \<open>Float32Array\<close>s; the \<open>BufferAttribute\<close> built from \<open>positions\<close> wraps the same array, so
  \<open>particleRing.geometry.attributes.position.array\<close> in \<open>animate\<close> is \<open>positions\<close> again.
  \<open>needsUpdate\<close> counts the assignments \<open>position.needsUpdate = true\<close>, each of which tells the
  renderer once that the buffer has to be uploaded again.
\<close>

record scene =
  cfg :: config
  particlesData :: "particle list"
  positions :: "real list"
  colors :: "real list"
  needsUpdate :: nat

text \<open>
  What a run of module code comes to: it completes, it throws, it goes on with a number
  that is not finite (a division by zero, named by the place), or it never leaves a loop.
\<close>

datatype js_error = RangeError | TypeError

datatype division = SpeedDivision | GradientDivision

datatype 'a run = Done 'a | Throws js_error | NonFinite division | Diverges

definition bind_run :: "'a run \<Rightarrow> ('a \<Rightarrow> 'b run) \<Rightarrow> 'b run" where
  "bind_run m f = (case m of Done x \<Rightarrow> f x | Throws e \<Rightarrow> Throws e
                   | NonFinite d \<Rightarrow> NonFinite d | Diverges \<Rightarrow> Diverges)"

text \<open>
  \<open>for (let i = 0; i < n; i++) body\<close>: the iterations \<open>0, 1, ..., n - 1\<close> in this order,
  stopping at the first one that does not complete.
\<close>

primrec for_loop :: "nat \<Rightarrow> (nat \<Rightarrow> 'a \<Rightarrow> 'a run) \<Rightarrow> 'a \<Rightarrow> 'a run" where
  "for_loop 0 body s = Done s"
| "for_loop (Suc n) body s = bind_run (for_loop n body s) (body n)"

subsection \<open>The random source\<close>

text \<open>
  \<open>Math.random()\<close> is modelled by the sequence \<open>rnd\<close> of the values it returns during the run
  and a cursor: the call at cursor \<open>k\<close> returns \<open>rnd k\<close> and moves the cursor to \<open>Suc k\<close>. The
  language guarantees values in \<open>[0, 1)\<close>; nothing guarantees that zeros stop coming, which
  is what the rejection loops need.
\<close>

definition random_source :: "(nat \<Rightarrow> real) \<Rightarrow> bool" where
  "random_source rnd \<longleftrightarrow>
     (\<forall>k. 0 \<le> rnd k \<and> rnd k < 1) \<and> (\<forall>k. \<exists>j. k \<le> j \<and> rnd j \<noteq> 0)"

text \<open>
  \<open>while (u === 0) u = Math.random();\<close> with the current value of \<open>u\<close> and the cursor.
  \<open>None\<close> is the loop that never ends.
\<close>

partial_function (option) resample :: "(nat \<Rightarrow> real) \<Rightarrow> real \<Rightarrow> nat \<Rightarrow> (real \<times> nat) option" where
  "resample rnd u k = (if u = 0 then resample rnd (rnd k) (Suc k) else Some (u, k))"

text \<open>
  \<open>getNormalRandom(mean, stdDev)\<close>, lines 122-129 and 350-357. The two loops leave \<open>u1\<close> and
  \<open>u2\<close> other than zero; with the values of \<open>Math.random()\<close> in \<open>[0, 1)\<close> the logarithm and
  the square root are then taken inside their domains.
\<close>

definition getNormalRandom :: "(nat \<Rightarrow> real) \<Rightarrow> real \<Rightarrow> real \<Rightarrow> nat \<Rightarrow> (real \<times> nat) option" where
  "getNormalRandom rnd mean stdDev k =
     (case resample rnd 0 k of
        None \<Rightarrow> None
      | Some (u1, k1) \<Rightarrow>
          (case resample rnd 0 k1 of
             None \<Rightarrow> None
           | Some (u2, k2) \<Rightarrow>
               (let z = sqrt (- 2 * ln u1) * cos (2 * pi * u2)
                in Some (z * stdDev + mean, k2))))"

definition meanRadius :: "config \<Rightarrow> real" where
  "meanRadius c = (innerRadius c + outerRadius c) / 2"

definition stdDevRadius :: "config \<Rightarrow> real" where
  "stdDevRadius c = (outerRadius c - innerRadius c) / 4"

subsection \<open>Construction of the ring\<close>

text \<open>
  Modelled from the spec: \<open>Color.lerpColors\<close> belongs to the three.js library, which is not
  part of the sources. The spec calls it a per-channel linear blend of the two reference
  colours; the library computes each channel as \<open>c1 + (c2 - c1) * alpha\<close>.
\<close>

definition lerpColors :: "color \<Rightarrow> color \<Rightarrow> real \<Rightarrow> color" where
  "lerpColors c1 c2 alpha =
     \<lparr> r = r c1 + (r c2 - r c1) * alpha,
       g = g c1 + (g c2 - g c1) * alpha,
       b = b c1 + (b c2 - b c1) * alpha \<rparr>"

text \<open>The largest length of an \<open>Array\<close>, \<open>2^32 - 1\<close>.\<close>

definition max_array_length :: nat where
  "max_array_length = 4294967295"

text \<open>
  One iteration of the loop of lines 136-170 and 362-393, on the cursor of the random source
  and the module state. \<open>tempColor\<close> is written by \<open>lerpColors\<close> in full before it is read, so
  it is a value of the iteration. A store into a \<open>Float32Array\<close> outside its range does
  nothing, as \<open>list_update\<close> does. \<open>particlesData.push\<close> on an array of \<open>2^32 - 1\<close>
  elements throws a \<open>RangeError\<close>: the length of an \<open>Array\<close> does not grow beyond that.
\<close>

definition particle_step :: "config \<Rightarrow> (nat \<Rightarrow> real) \<Rightarrow> nat \<Rightarrow> nat \<times> scene \<Rightarrow> (nat \<times> scene) run" where
  "particle_step c rnd i ks =
     (case ks of (k, s) \<Rightarrow>
       (case getNormalRandom rnd (meanRadius c) (stdDevRadius c) k of
          None \<Rightarrow> Diverges
        | Some (x, k1) \<Rightarrow>
            (let radius = max (innerRadius c) (min (outerRadius c) x);
                 angle = rnd k1 * pi * 2
             in if radius = 0 then NonFinite SpeedDivision
                else if max_array_length \<le> length (particlesData s) then Throws RangeError
                else
                  (let speed = speedConstant c / radius;
                       ps = particlesData s @ [\<lparr> radius = radius, angle = angle, speed = speed \<rparr>];
                       pos = (positions s)[i * 3 := cos angle * radius,
                                           i * 3 + 1 := sin angle * radius,
                                           i * 3 + 2 := 0]
                   in if outerRadius c - innerRadius c = 0 then NonFinite GradientDivision
                      else
                        (let normalizedRadius =
                               (radius - innerRadius c) / (outerRadius c - innerRadius c);
                             tempColor =
                               (if normalizedRadius < 0.5
                                then lerpColors (color1 c) (color2 c) (normalizedRadius * 2)
                                else lerpColors (color2 c) (color3 c) ((normalizedRadius - 0.5) * 2));
                             col = (colors s)[i * 3 := r tempColor,
                                              i * 3 + 1 := g tempColor,
                                              i * 3 + 2 := b tempColor]
                         in Done (Suc k1,
                                  s\<lparr> particlesData := ps, positions := pos, colors := col \<rparr>))))))"

text \<open>
  Section 8 of the script up to the end of the loop. \<open>new Float32Array(n)\<close> throws a
  \<open>RangeError\<close> for a negative length and for a length above the limit of the engine, and is
  filled with zeros otherwise. The limit is a parameter, \<open>maxLength\<close>: it depends on the engine and
  on the memory it finds, and the language lets no engine go beyond \<open>2^53 - 1\<close>. The two
  arrays have the same length, so one test stands for both allocations.
\<close>

definition init_scene :: "config \<Rightarrow> scene" where
  "init_scene c =
     \<lparr> cfg = c, particlesData = [],
       positions = replicate (nat (particleCount c * 3)) 0,
       colors = replicate (nat (particleCount c * 3)) 0,
       needsUpdate = 0 \<rparr>"

definition construct :: "nat \<Rightarrow> config \<Rightarrow> (nat \<Rightarrow> real) \<Rightarrow> scene run" where
  "construct maxLength c rnd =
     (if particleCount c * 3 < 0 \<or> int maxLength < particleCount c * 3 then Throws RangeError
      else bind_run (for_loop (nat (particleCount c)) (particle_step c rnd) (0, init_scene c))
             (\<lambda>ks. Done (snd ks)))"

subsection \<open>The animation loop\<close>

text \<open>
  One iteration of the loop in \<open>animate\<close> (lines 226-237 and 433-444). Reading a property of
  \<open>particlesData[i]\<close> beyond the end of the array is a \<open>TypeError\<close>.
\<close>

definition animate_step :: "nat \<Rightarrow> scene \<Rightarrow> scene run" where
  "animate_step i s =
     (if i < length (particlesData s) then
        (let data = particlesData s ! i;
             data' = data\<lparr> angle := angle data + speed data \<rparr>;
             index = i * 3
         in Done (s\<lparr> particlesData := (particlesData s)[i := data'],
                     positions := (positions s)[index := cos (angle data') * radius data',
                                                index + 1 := sin (angle data') * radius data'] \<rparr>))
      else Throws TypeError)"

text \<open>
  The part of \<open>animate\<close> that works on the ring: the loop, then \<open>needsUpdate = true\<close>. The other
  statements of \<open>animate\<close> turn the cube and the starfield, update the controls and render;
  they do not touch the state modelled here.
\<close>

definition animate :: "scene \<Rightarrow> scene run" where
  "animate s =
     bind_run (for_loop (nat (particleCount (cfg s))) animate_step s)
       (\<lambda>s'. Done (s'\<lparr> needsUpdate := Suc (needsUpdate s') \<rparr>))"

text \<open>\<open>n\<close> frames: \<open>animate\<close> called \<open>n\<close> times, each on the state the last one left.\<close>

primrec ticks :: "nat \<Rightarrow> scene \<Rightarrow> scene run" where
  "ticks 0 s = Done s"
| "ticks (Suc n) s = bind_run (ticks n s) animate"

subsection \<open>The gradient as the specification words it\<close>

text \<open>
  The specification describes the colour of a particle as a two-segment linear interpolation
  in the normalised radius \<open>t\<close>: from the inner to the middle colour at \<open>2t\<close> below one half,
  from the middle to the outer colour at \<open>2(t - 1/2)\<close> from one half on. These definitions
  follow that wording; the loop of the script is compared with them below.
\<close>

definition lerp :: "real \<Rightarrow> real \<Rightarrow> real \<Rightarrow> real" where
  "lerp x y t = (1 - t) * x + t * y"

definition lerp_color :: "color \<Rightarrow> color \<Rightarrow> real \<Rightarrow> color" where
  "lerp_color c1 c2 t = \<lparr> r = lerp (r c1) (r c2) t, g = lerp (g c1) (g c2) t, b = lerp (b c1) (b c2) t \<rparr>"

definition gradient :: "config \<Rightarrow> real \<Rightarrow> color" where
  "gradient c rad =
     (let t = (rad - innerRadius c) / (outerRadius c - innerRadius c)
      in if t < 1 / 2 then lerp_color (color1 c) (color2 c) (2 * t)
         else lerp_color (color2 c) (color3 c) (2 * (t - 1 / 2)))"

subsection \<open>Index alignment\<close>

text \<open>
  The invariant of the data model: \<open>particlesData\<close> has one entry for each of the
  \<open>particleCount\<close> particles and both buffers have three entries for each.
\<close>

definition aligned :: "scene \<Rightarrow> bool" where
  "aligned s \<longleftrightarrow>
     length (particlesData s) = nat (particleCount (cfg s)) \<and>
     length (positions s) = 3 * length (particlesData s) \<and>
     length (colors s) = 3 * length (particlesData s)"

subsection \<open>Concrete inputs\<close>

text \<open>
  The three reference colours the script asks the library for, as their sRGB channels. The
  library may keep them in another colour space; no statement below depends on the numbers.
\<close>

definition white :: color where
  "white = \<lparr> r = 1, g = 1, b = 1 \<rparr>"

definition yellow :: color where
  "yellow = \<lparr> r = 1, g = 1, b = 0 \<rparr>"

definition orange :: color where
  "orange = \<lparr> r = 1, g = 165 / 255, b = 0 \<rparr>"

text \<open>The constants of the two revisions (lines 102-117 and 146; lines 336-346 and 371).\<close>

definition revision1 :: config where
  "revision1 = \<lparr> particleCount = 20000, innerRadius = 2, outerRadius = 5, speedConstant = 1 / 10,
                  color1 = white, color2 = yellow, color3 = orange \<rparr>"

definition revision2 :: config where
  "revision2 = \<lparr> particleCount = 20000, innerRadius = 3, outerRadius = 5, speedConstant = 4 / 10,
                  color1 = white, color2 = yellow, color3 = orange \<rparr>"


text \<open>A random source that returns the values of a list, then \<open>v\<close> at every later call.\<close>

definition list_source :: "real list \<Rightarrow> real \<Rightarrow> nat \<Rightarrow> real" where
  "list_source us v k = (if k < length us then us ! k else v)"

text \<open>The later revision with three particles, small enough to run by rewriting.\<close>

definition three_particles :: config where
  "three_particles = revision2\<lparr> particleCount := 3 \<rparr>"

text \<open>
  Ten draws for the three particles: the first particle gets the mean radius, the second is
  clamped to the outer radius, the third (after a rejected zero) to the inner radius; the
  last draw, a zero, is an angle.
\<close>

definition demo_source :: "nat \<Rightarrow> real" where
  "demo_source = list_source [1 / 4, 1 / 4, 1 / 8, 1 / 256, 1 / 8, 1 / 2, 0, 1 / 16, 1 / 2, 0] (1 / 4)"

text \<open>The ring this run constructs.\<close>

definition demo_ring :: scene where
  "demo_ring =
     \<lparr> cfg = three_particles,
       particlesData = [\<lparr> radius = 4, angle = pi / 4, speed = 1 / 10 \<rparr>,
                        \<lparr> radius = 5, angle = pi, speed = 2 / 25 \<rparr>,
                        \<lparr> radius = 3, angle = 0, speed = 2 / 15 \<rparr>],
       positions = [2 * sqrt 2, 2 * sqrt 2, 0, - 5, 0, 0, 3, 0, 0],
       colors = [1, 1, 0, 1, 165 / 255, 0, 1, 1, 1],
       needsUpdate = 0 \<rparr>"

text \<open>
  A limit of an engine for the length of a typed array, \<open>2^32 - 1\<close>, and the limit the
  language sets to every engine, \<open>2^53 - 1\<close>.
\<close>

definition engine_limit :: nat where
  "engine_limit = 4294967295"

definition language_limit :: nat where
  "language_limit = 9007199254740991"

text \<open>
  The later revision with \<open>10^16\<close> particles, more than any engine allocates, and with
  \<open>2^32\<close> particles, one more than an \<open>Array\<close> holds.
\<close>

definition over_long :: config where
  "over_long = revision2\<lparr> particleCount := 10000000000000000 \<rparr>"

definition array_full :: config where
  "array_full = revision2\<lparr> particleCount := 4294967296 \<rparr>"





section \<open>Basic facts\<close>

lemma bind_run_simps [simp]:
  "bind_run (Done x) f = f x"
  "bind_run (Throws e) f = Throws e"
  "bind_run (NonFinite d) f = NonFinite d"
  "bind_run Diverges f = Diverges"
  by (simp_all add: bind_run_def)

lemma bind_run_Done_iff: "bind_run m f = Done y \<longleftrightarrow> (\<exists>x. m = Done x \<and> f x = Done y)"
  by (cases m) simp_all

text \<open>Two rules for loops: an invariant of a loop that completed, and a loop that completes.\<close>

lemma for_loop_Done_invariant:
  assumes "for_loop n body s = Done s'"
    and "P 0 s"
    and "\<And>i t t'. i < n \<Longrightarrow> P i t \<Longrightarrow> body i t = Done t' \<Longrightarrow> P (Suc i) t'"
  shows "P n s'"
  using assms
proof (induction n arbitrary: s')
  case 0
  then show ?case by simp
next
  case (Suc n)
  from Suc.prems(1) obtain t where t: "for_loop n body s = Done t" "body n t = Done s'"
    by (auto simp: bind_run_Done_iff)
  have "P n t"
    using t(1) Suc.prems(2) Suc.prems(3) by (rule Suc.IH) simp_all
  then show ?case
    using t(2) Suc.prems(3) by blast
qed

lemma for_loop_total:
  assumes "P 0 s"
    and "\<And>i t. i < n \<Longrightarrow> P i t \<Longrightarrow> \<exists>t'. body i t = Done t' \<and> P (Suc i) t'"
  shows "\<exists>s'. for_loop n body s = Done s' \<and> P n s'"
  using assms
proof (induction n)
  case 0
  then show ?case by simp
next
  case (Suc n)
  have "\<exists>t. for_loop n body s = Done t \<and> P n t"
    using Suc.prems by (intro Suc.IH) simp_all
  then obtain t where t: "for_loop n body s = Done t" "P n t"
    by blast
  with Suc.prems(2) [of n t] show ?case
    by simp
qed

section \<open>The rejection loops and the normal variate\<close>

lemma resample_nonzero: "u \<noteq> 0 \<Longrightarrow> resample rnd u k = Some (u, k)"
  by (subst resample.simps) simp

lemma resample_zero: "resample rnd 0 k = resample rnd (rnd k) (Suc k)"
  by (subst resample.simps) simp

text \<open>The loop passes over \<open>d\<close> zeros and stops at the value after them.\<close>

lemma resample_skips:
  assumes "\<forall>i. k \<le> i \<and> i < k + d \<longrightarrow> rnd i = 0" and "rnd (k + d) \<noteq> 0"
  shows "resample rnd 0 k = Some (rnd (k + d), Suc (k + d))"
  using assms
proof (induction d arbitrary: k)
  case 0
  then show ?case
    by (simp add: resample_zero resample_nonzero)
next
  case (Suc d)
  have z: "rnd k = 0"
    using Suc.prems(1) by simp
  have "resample rnd 0 (Suc k) = Some (rnd (Suc k + d), Suc (Suc k + d))"
    using Suc.prems by (intro Suc.IH) simp_all
  then show ?case
    by (simp add: resample_zero z)
qed

text \<open>If a value other than zero is still to come, the loop ends at the first such value.\<close>

lemma resample_first:
  assumes "\<exists>j. k \<le> j \<and> rnd j \<noteq> 0"
  shows "\<exists>j. k \<le> j \<and> rnd j \<noteq> 0 \<and> (\<forall>i. k \<le> i \<and> i < j \<longrightarrow> rnd i = 0)
             \<and> resample rnd 0 k = Some (rnd j, Suc j)"
proof -
  define m where "m = (LEAST j. k \<le> j \<and> rnd j \<noteq> 0)"
  have m: "k \<le> m \<and> rnd m \<noteq> 0"
    unfolding m_def using assms by (rule LeastI_ex)
  have least: "rnd i = 0" if "k \<le> i" "i < m" for i
    using that not_less_Least [of i "\<lambda>j. k \<le> j \<and> rnd j \<noteq> 0"] by (auto simp: m_def)
  obtain d where d: "m = k + d"
    using m by (auto simp: le_iff_add)
  have "resample rnd 0 k = Some (rnd (k + d), Suc (k + d))"
    using least m d by (intro resample_skips) auto
  with m least d show ?thesis
    by blast
qed

text \<open>On a random source that does not end in zeros both rejection loops end.\<close>

lemma getNormalRandom_total:
  assumes "random_source rnd"
  shows "\<exists>x k'. getNormalRandom rnd mean stdDev k = Some (x, k')"
proof -
  have more: "\<exists>j. i \<le> j \<and> rnd j \<noteq> 0" for i
    using assms by (simp add: random_source_def)
  from resample_first [OF more [of k]] obtain j1 where j1:
    "resample rnd 0 k = Some (rnd j1, Suc j1)"
    by blast
  from resample_first [OF more [of "Suc j1"]] obtain j2 where j2:
    "resample rnd 0 (Suc j1) = Some (rnd j2, Suc j2)"
    by blast
  show ?thesis
    by (simp add: getNormalRandom_def j1 j2)
qed


lemma random_source_list:
  assumes "\<forall>u \<in> set us. 0 \<le> u \<and> u < 1" and "0 < v" and "v < 1"
  shows "random_source (list_source us v)"
  unfolding random_source_def
proof (intro conjI allI)
  fix k :: nat
  show "0 \<le> list_source us v k" "list_source us v k < 1"
    using assms by (auto simp: list_source_def)
  have "k \<le> k + length us \<and> list_source us v (k + length us) \<noteq> 0"
    using assms(2) by (simp add: list_source_def)
  then show "\<exists>j. k \<le> j \<and> list_source us v j \<noteq> 0"
    by blast
qed

text \<open>
  C6. The radius generation of the sampler, \<open>getNormalRandom(meanRadius, stdDevRadius)\<close>, on a
  random source with values in \<open>[0, 1)\<close> that does not end in zeros: from cursor \<open>k\<close> it draws
  \<open>u1\<close> as the first value that is not zero (at \<open>j1\<close>, every draw before it being a rejected
  zero), then \<open>u2\<close> in the same way (at \<open>j2\<close>); both lie strictly between 0 and 1; and it
  returns \<open>z * stdDev + mean\<close> with \<open>z = sqrt (-2 ln u1) * cos (2 pi u2)\<close>,
  \<open>stdDev = (outerRadius - innerRadius) / 4\<close> and \<open>mean = (innerRadius + outerRadius) / 2\<close>.
\<close>

theorem getNormalRandom_box_muller:
  assumes "random_source rnd"
  shows "\<exists>j1 j2. k \<le> j1 \<and> j1 < j2
           \<and> (\<forall>i. k \<le> i \<and> i < j1 \<longrightarrow> rnd i = 0) \<and> (\<forall>i. j1 < i \<and> i < j2 \<longrightarrow> rnd i = 0)
           \<and> 0 < rnd j1 \<and> rnd j1 < 1 \<and> 0 < rnd j2 \<and> rnd j2 < 1
           \<and> getNormalRandom rnd (meanRadius c) (stdDevRadius c) k =
               Some (sqrt (- 2 * ln (rnd j1)) * cos (2 * pi * rnd j2)
                       * ((outerRadius c - innerRadius c) / 4)
                     + (innerRadius c + outerRadius c) / 2, Suc j2)"
proof -
  have range: "0 \<le> rnd i \<and> rnd i < 1" for i
    using assms by (simp add: random_source_def)
  have more: "\<exists>j. i \<le> j \<and> rnd j \<noteq> 0" for i
    using assms by (simp add: random_source_def)
  from resample_first [OF more [of k]] obtain j1 where j1:
    "k \<le> j1" "rnd j1 \<noteq> 0" "\<forall>i. k \<le> i \<and> i < j1 \<longrightarrow> rnd i = 0"
    "resample rnd 0 k = Some (rnd j1, Suc j1)"
    by blast
  from resample_first [OF more [of "Suc j1"]] obtain j2 where j2:
    "Suc j1 \<le> j2" "rnd j2 \<noteq> 0" "\<forall>i. Suc j1 \<le> i \<and> i < j2 \<longrightarrow> rnd i = 0"
    "resample rnd 0 (Suc j1) = Some (rnd j2, Suc j2)"
    by blast
  have pos: "0 < rnd j1" "0 < rnd j2"
    using range [of j1] range [of j2] j1(2) j2(2) by simp_all
  have "getNormalRandom rnd (meanRadius c) (stdDevRadius c) k =
          Some (sqrt (- 2 * ln (rnd j1)) * cos (2 * pi * rnd j2)
                  * ((outerRadius c - innerRadius c) / 4)
                + (innerRadius c + outerRadius c) / 2, Suc j2)"
    by (simp add: getNormalRandom_def j1(4) j2(4) meanRadius_def stdDevRadius_def)
  with j1 j2 pos range show ?thesis
    by (intro exI [of _ j1] exI [of _ j2]) (simp add: Suc_le_eq)
qed

text \<open>
  On the source that returns 0 first and 1/4 from then on, with the constants of the later
  revision: the zero is rejected, \<open>u1\<close> and \<open>u2\<close> are the second and third values, the cosine
  is 0 and the result is the mean, 4, with the cursor after three draws.
\<close>

theorem getNormalRandom_box_muller_witness:
  "random_source (list_source [0] (1 / 4))
   \<and> getNormalRandom (list_source [0] (1 / 4)) (meanRadius revision2) (stdDevRadius revision2) 0 = Some (4, 3)"
proof -
  have src: "random_source (list_source [0] (1 / 4))"
    by (simp add: random_source_list)
  from getNormalRandom_box_muller [OF src, of 0 revision2]
  obtain j1 j2 where j: "j1 < j2"
    "\<forall>i. 0 \<le> i \<and> i < j1 \<longrightarrow> list_source [0] (1 / 4) i = 0"
    "\<forall>i. j1 < i \<and> i < j2 \<longrightarrow> list_source [0] (1 / 4) i = 0"
    "0 < list_source [0] (1 / 4) j1"
    "getNormalRandom (list_source [0] (1 / 4)) (meanRadius revision2) (stdDevRadius revision2) 0 =
       Some (sqrt (- 2 * ln (list_source [0] (1 / 4) j1)) * cos (2 * pi * list_source [0] (1 / 4) j2)
               * ((outerRadius revision2 - innerRadius revision2) / 4)
             + (innerRadius revision2 + outerRadius revision2) / 2, Suc j2)"
    by blast
  have j1: "j1 = 1"
  proof -
    have "j1 \<noteq> 0" using j(4) by (auto simp: list_source_def split: if_splits)
    moreover have "\<not> 1 < j1" using j(2) [rule_format, of 1] by (auto simp: list_source_def)
    ultimately show ?thesis by simp
  qed
  have j2: "j2 = 2"
  proof -
    have "\<not> 2 < j2" using j(3) [rule_format, of 2] j1 by (auto simp: list_source_def)
    with j(1) j1 show ?thesis by simp
  qed
  show ?thesis
    using src j(5) by (simp add: j1 j2 list_source_def revision2_def)
qed

section \<open>Construction\<close>

text \<open>The blend of the library is the linear interpolation of the specification.\<close>

lemma lerpColors_lerp_color: "lerpColors c1 c2 t = lerp_color c1 c2 t"
  by (simp add: lerpColors_def lerp_color_def lerp_def algebra_simps)

lemma tempColor_gradient:
  "(if (rad - innerRadius c) / (outerRadius c - innerRadius c) < 0.5
    then lerpColors (color1 c) (color2 c) ((rad - innerRadius c) / (outerRadius c - innerRadius c) * 2)
    else lerpColors (color2 c) (color3 c)
           (((rad - innerRadius c) / (outerRadius c - innerRadius c) - 0.5) * 2)) =
   gradient c rad"
  by (simp add: gradient_def Let_def lerpColors_lerp_color algebra_simps)

text \<open>One iteration, once the normal variate \<open>x\<close> has been drawn.\<close>

lemma particle_step_Some:
  assumes "getNormalRandom rnd (meanRadius c) (stdDevRadius c) k = Some (x, k1)"
  shows "particle_step c rnd i (k, s) =
    (if max (innerRadius c) (min (outerRadius c) x) = 0 then NonFinite SpeedDivision
     else if max_array_length \<le> length (particlesData s) then Throws RangeError
     else if outerRadius c - innerRadius c = 0 then NonFinite GradientDivision
     else Done (Suc k1,
       s\<lparr> particlesData := particlesData s @
             [\<lparr> radius = max (innerRadius c) (min (outerRadius c) x), angle = rnd k1 * pi * 2,
                speed = speedConstant c / max (innerRadius c) (min (outerRadius c) x) \<rparr>],
          positions := (positions s)
             [i * 3 := cos (rnd k1 * pi * 2) * max (innerRadius c) (min (outerRadius c) x),
              i * 3 + 1 := sin (rnd k1 * pi * 2) * max (innerRadius c) (min (outerRadius c) x),
              i * 3 + 2 := 0],
          colors := (colors s)
             [i * 3 := r (gradient c (max (innerRadius c) (min (outerRadius c) x))),
              i * 3 + 1 := g (gradient c (max (innerRadius c) (min (outerRadius c) x))),
              i * 3 + 2 := b (gradient c (max (innerRadius c) (min (outerRadius c) x)))] \<rparr>))"
  unfolding particle_step_def Let_def tempColor_gradient
  by (simp only: assms prod.case option.case)

lemma particle_step_Done:
  assumes "particle_step c rnd i (k, s) = Done (k', s')"
  shows "\<exists>x k1 p.
      getNormalRandom rnd (meanRadius c) (stdDevRadius c) k = Some (x, k1) \<and> k' = Suc k1
    \<and> radius p = max (innerRadius c) (min (outerRadius c) x) \<and> radius p \<noteq> 0
    \<and> angle p = rnd k1 * pi * 2 \<and> speed p = speedConstant c / radius p
    \<and> outerRadius c \<noteq> innerRadius c
    \<and> s' = s\<lparr> particlesData := particlesData s @ [p],
               positions := (positions s)[i * 3 := cos (angle p) * radius p,
                                          i * 3 + 1 := sin (angle p) * radius p,
                                          i * 3 + 2 := 0],
               colors := (colors s)[i * 3 := r (gradient c (radius p)),
                                    i * 3 + 1 := g (gradient c (radius p)),
                                    i * 3 + 2 := b (gradient c (radius p))] \<rparr>"
proof (cases "getNormalRandom rnd (meanRadius c) (stdDevRadius c) k")
  case None
  with assms show ?thesis
    by (simp add: particle_step_def)
next
  case (Some xk)
  obtain x k1 where xk: "xk = (x, k1)"
    by (cases xk)
  define rad where "rad = max (innerRadius c) (min (outerRadius c) x)"
  define p where "p = \<lparr> radius = rad, angle = rnd k1 * pi * 2, speed = speedConstant c / rad \<rparr>"
  note step = particle_step_Some [of rnd c k x k1 i s, folded rad_def]
  have gn: "getNormalRandom rnd (meanRadius c) (stdDevRadius c) k = Some (x, k1)"
    using Some xk by simp
  have nz: "rad \<noteq> 0" "outerRadius c \<noteq> innerRadius c"
    "\<not> max_array_length \<le> length (particlesData s)"
    using assms step [OF gn] by (auto split: if_splits)
  have "k' = Suc k1 \<and> s' = s\<lparr> particlesData := particlesData s @ [p],
               positions := (positions s)[i * 3 := cos (angle p) * radius p,
                                          i * 3 + 1 := sin (angle p) * radius p,
                                          i * 3 + 2 := 0],
               colors := (colors s)[i * 3 := r (gradient c (radius p)),
                                    i * 3 + 1 := g (gradient c (radius p)),
                                    i * 3 + 2 := b (gradient c (radius p))] \<rparr>"
    using assms step [OF gn] nz by (simp add: p_def)
  then show ?thesis
    using gn nz by (intro exI [of _ x] exI [of _ k1] exI [of _ p]) (simp add: p_def rad_def)
qed

lemma particle_step_total:
  assumes "random_source rnd" and "0 < innerRadius c" and "innerRadius c \<noteq> outerRadius c"
    and "length (particlesData s) < max_array_length"
  shows "\<exists>k' s'. particle_step c rnd i (k, s) = Done (k', s')
           \<and> length (particlesData s') = Suc (length (particlesData s))"
proof -
  from getNormalRandom_total [OF assms(1)]
  obtain x k1 where x: "getNormalRandom rnd (meanRadius c) (stdDevRadius c) k = Some (x, k1)"
    by blast
  have "max (innerRadius c) (min (outerRadius c) x) \<noteq> 0"
    using assms(2) by simp
  then show ?thesis
    using assms(3,4) by (simp add: particle_step_Some [OF x])
qed


text \<open>
  What holds of a ring whose construction completed: the state is aligned, and every particle
  has a clamped radius other than zero, its speed, its position and its colour.
\<close>

lemma construct_Done:
  assumes "construct maxLength c rnd = Done s"
  shows "cfg s = c \<and> needsUpdate s = 0 \<and> aligned s \<and> 0 \<le> particleCount c
    \<and> (\<forall>i < length (particlesData s).
          (\<exists>x. radius (particlesData s ! i) = max (innerRadius c) (min (outerRadius c) x))
        \<and> radius (particlesData s ! i) \<noteq> 0 \<and> outerRadius c \<noteq> innerRadius c
        \<and> speed (particlesData s ! i) = speedConstant c / radius (particlesData s ! i)
        \<and> positions s ! (i * 3) = cos (angle (particlesData s ! i)) * radius (particlesData s ! i)
        \<and> positions s ! (i * 3 + 1) = sin (angle (particlesData s ! i)) * radius (particlesData s ! i)
        \<and> positions s ! (i * 3 + 2) = 0
        \<and> colors s ! (i * 3) = r (gradient c (radius (particlesData s ! i)))
        \<and> colors s ! (i * 3 + 1) = g (gradient c (radius (particlesData s ! i)))
        \<and> colors s ! (i * 3 + 2) = b (gradient c (radius (particlesData s ! i))))"
proof -
  define N where "N = nat (particleCount c)"
  define F where "F = (\<lambda>(s::scene) i.
          (\<exists>x. radius (particlesData s ! i) = max (innerRadius c) (min (outerRadius c) x))
        \<and> radius (particlesData s ! i) \<noteq> 0 \<and> outerRadius c \<noteq> innerRadius c
        \<and> speed (particlesData s ! i) = speedConstant c / radius (particlesData s ! i)
        \<and> positions s ! (i * 3) = cos (angle (particlesData s ! i)) * radius (particlesData s ! i)
        \<and> positions s ! (i * 3 + 1) = sin (angle (particlesData s ! i)) * radius (particlesData s ! i)
        \<and> positions s ! (i * 3 + 2) = 0
        \<and> colors s ! (i * 3) = r (gradient c (radius (particlesData s ! i)))
        \<and> colors s ! (i * 3 + 1) = g (gradient c (radius (particlesData s ! i)))
        \<and> colors s ! (i * 3 + 2) = b (gradient c (radius (particlesData s ! i))))"
  define Q where "Q = (\<lambda>n (s::scene). cfg s = c \<and> needsUpdate s = 0 \<and> length (particlesData s) = n
        \<and> length (positions s) = 3 * N \<and> length (colors s) = 3 * N \<and> (\<forall>i<n. F s i))"
  define P where "P = (\<lambda>n (ks :: nat \<times> scene). Q n (snd ks))"
  have count: "0 \<le> particleCount c"
    using assms by (auto simp: construct_def split: if_splits)
  then obtain k where loop: "for_loop N (particle_step c rnd) (0, init_scene c) = Done (k, s)"
    using assms by (auto simp: construct_def N_def bind_run_Done_iff split: if_splits)
  have len: "nat (particleCount c * 3) = 3 * N"
    using count by (simp add: N_def nat_mult_distrib)
  have init: "P 0 (0, init_scene c)"
    by (simp add: P_def Q_def init_scene_def len)
  have step: "P (Suc i) t'" if "i < N" "P i t" "particle_step c rnd i t = Done t'" for i t t'
  proof -
    obtain k1 s1 where t: "t = (k1, s1)" by (cases t)
    obtain k2 s2 where t': "t' = (k2, s2)" by (cases t')
    have q: "Q i s1" using that(2) t by (simp add: P_def)
    from particle_step_Done [OF that(3) [unfolded t t']]
    obtain x p where p: "radius p = max (innerRadius c) (min (outerRadius c) x)" "radius p \<noteq> 0"
      "speed p = speedConstant c / radius p" "outerRadius c \<noteq> innerRadius c"
      and s2: "s2 = s1\<lparr> particlesData := particlesData s1 @ [p],
               positions := (positions s1)[i * 3 := cos (angle p) * radius p,
                                          i * 3 + 1 := sin (angle p) * radius p,
                                          i * 3 + 2 := 0],
               colors := (colors s1)[i * 3 := r (gradient c (radius p)),
                                    i * 3 + 1 := g (gradient c (radius p)),
                                    i * 3 + 2 := b (gradient c (radius p))] \<rparr>"
      by blast
    have lens: "length (particlesData s1) = i" "length (positions s1) = 3 * N"
      "length (colors s1) = 3 * N"
      using q by (simp_all add: Q_def)
    have old: "F s2 j" if "j < i" for j
    proof -
      have "F s1 j" using q that by (simp add: Q_def)
      moreover have "particlesData s2 ! j = particlesData s1 ! j"
        using that lens by (simp add: s2 nth_append)
      moreover have "positions s2 ! (j * 3) = positions s1 ! (j * 3)"
        "positions s2 ! (j * 3 + 1) = positions s1 ! (j * 3 + 1)"
        "positions s2 ! (j * 3 + 2) = positions s1 ! (j * 3 + 2)"
        "colors s2 ! (j * 3) = colors s1 ! (j * 3)"
        "colors s2 ! (j * 3 + 1) = colors s1 ! (j * 3 + 1)"
        "colors s2 ! (j * 3 + 2) = colors s1 ! (j * 3 + 2)"
        using that by (simp_all add: s2)
      ultimately show ?thesis
        by (simp add: F_def)
    qed
    have new: "F s2 i"
    proof -
      have "particlesData s2 ! i = p"
        using lens by (simp add: s2 nth_append)
      moreover have "positions s2 ! (i * 3) = cos (angle p) * radius p"
        "positions s2 ! (i * 3 + 1) = sin (angle p) * radius p"
        "positions s2 ! (i * 3 + 2) = 0"
        "colors s2 ! (i * 3) = r (gradient c (radius p))"
        "colors s2 ! (i * 3 + 1) = g (gradient c (radius p))"
        "colors s2 ! (i * 3 + 2) = b (gradient c (radius p))"
        using \<open>i < N\<close> lens by (simp_all add: s2)
      ultimately show ?thesis
        using p unfolding F_def by metis
    qed
    have "\<forall>j<Suc i. F s2 j"
      using old new by (auto simp: less_Suc_eq)
    moreover have "cfg s2 = c \<and> needsUpdate s2 = 0 \<and> length (particlesData s2) = Suc i
        \<and> length (positions s2) = 3 * N \<and> length (colors s2) = 3 * N"
      using q by (simp add: s2 Q_def)
    ultimately show ?thesis
      by (simp add: P_def Q_def t')
  qed
  have "P N (k, s)"
    using loop init step by (rule for_loop_Done_invariant)
  then have "Q N s"
    by (simp add: P_def)
  then show ?thesis
    using count unfolding Q_def F_def aligned_def N_def by simp
qed


lemma construct_total:
  assumes "random_source rnd" and "0 < innerRadius c" and "innerRadius c \<noteq> outerRadius c"
    and "0 \<le> particleCount c" and "particleCount c * 3 \<le> int maxLength"
    and "particleCount c \<le> int max_array_length"
  shows "\<exists>s. construct maxLength c rnd = Done s"
proof -
  define P where "P = (\<lambda>(n::nat) (ks :: nat \<times> scene). length (particlesData (snd ks)) = n)"
  have "\<exists>ks. for_loop (nat (particleCount c)) (particle_step c rnd) (0, init_scene c) = Done ks
          \<and> P (nat (particleCount c)) ks"
  proof (rule for_loop_total)
    show "P 0 (0, init_scene c)"
      by (simp add: P_def init_scene_def)
  next
    fix i and t :: "nat \<times> scene"
    assume i: "i < nat (particleCount c)" and t: "P i t"
    obtain k s where ks: "t = (k, s)" by (cases t)
    have "length (particlesData s) < max_array_length"
      using i t ks assms(6) by (simp add: P_def)
    from particle_step_total [OF assms(1-3) this, of i k]
    show "\<exists>t'. particle_step c rnd i t = Done t' \<and> P (Suc i) t'"
      using t ks by (auto simp: P_def)
  qed
  then show ?thesis
    using assms(4,5) by (auto simp: construct_def)
qed

text \<open>The first particle comes from the first normal variate.\<close>

lemma construct_first:
  assumes "construct maxLength c rnd = Done s" and "0 < particleCount c"
    and "getNormalRandom rnd (meanRadius c) (stdDevRadius c) 0 = Some (x, k1)"
  shows "particlesData s \<noteq> []
    \<and> radius (particlesData s ! 0) = max (innerRadius c) (min (outerRadius c) x)
    \<and> angle (particlesData s ! 0) = rnd k1 * pi * 2"
proof -
  define G where "G = (\<lambda>t::scene. particlesData t \<noteq> []
    \<and> radius (particlesData t ! 0) = max (innerRadius c) (min (outerRadius c) x)
    \<and> angle (particlesData t ! 0) = rnd k1 * pi * 2)"
  define P where "P = (\<lambda>(n::nat) (ks :: nat \<times> scene).
      if n = 0 then fst ks = 0 \<and> particlesData (snd ks) = [] else G (snd ks))"
  obtain k where loop: "for_loop (nat (particleCount c)) (particle_step c rnd) (0, init_scene c) = Done (k, s)"
    using assms(1) by (auto simp: construct_def bind_run_Done_iff split: if_splits)
  have init: "P 0 (0, init_scene c)"
    by (simp add: P_def init_scene_def)
  have step: "P (Suc i) t'"
    if "i < nat (particleCount c)" "P i t" "particle_step c rnd i t = Done t'" for i t t'
  proof -
    obtain k2 s2 where t: "t = (k2, s2)" by (cases t)
    obtain k3 s3 where t': "t' = (k3, s3)" by (cases t')
    from particle_step_Done [OF that(3) [unfolded t t']]
    obtain y k4 p where p: "getNormalRandom rnd (meanRadius c) (stdDevRadius c) k2 = Some (y, k4)"
      "radius p = max (innerRadius c) (min (outerRadius c) y)" "angle p = rnd k4 * pi * 2"
      "particlesData s3 = particlesData s2 @ [p]"
      by auto
    show ?thesis
    proof (cases "i = 0")
      case True
      then have "k2 = 0" "particlesData s2 = []"
        using that(2) t by (simp_all add: P_def)
      then show ?thesis
        using p assms(3) by (simp add: P_def G_def t')
    next
      case False
      then have "G s2"
        using that(2) t by (simp add: P_def)
      then show ?thesis
        using p(4) by (simp add: P_def G_def t' nth_append)
    qed
  qed
  have "P (nat (particleCount c)) (k, s)"
    using loop init step by (rule for_loop_Done_invariant)
  then show ?thesis
    using assms(2) by (simp add: P_def G_def)
qed

text \<open>Draws that send the normal variate two standard deviations below and above the mean.\<close>

lemma ln_2_ge_half: "1 / 2 \<le> ln (2::real)"
proof -
  have "ln (1 / 2 :: real) \<le> 1 / 2 - 1"
    by (rule ln_le_minus_one) simp
  moreover have "ln (1 / 2 :: real) = - ln 2"
    by (simp add: ln_div)
  ultimately show ?thesis
    by simp
qed

lemma ln_16: "ln (1 / 16 :: real) \<le> - 2"
proof -
  have "ln (16 :: real) = ln (2 ^ 4)" by simp
  also have "\<dots> = 4 * ln 2" by (simp only: ln_realpow)
  finally have "ln (1 / 16 :: real) = - (4 * ln 2)"
    by (simp add: ln_div)
  with ln_2_ge_half show ?thesis by simp
qed

lemma ln_256: "ln (1 / 256 :: real) \<le> - 4"
proof -
  have "ln (256 :: real) = ln (2 ^ 8)" by simp
  also have "\<dots> = 8 * ln 2" by (simp only: ln_realpow)
  finally have "ln (1 / 256 :: real) = - (8 * ln 2)"
    by (simp add: ln_div)
  with ln_2_ge_half show ?thesis by simp
qed

lemma variate_low: "sqrt (- 2 * ln (1 / 16)) * cos (2 * pi * (1 / 2)) \<le> - 2"
proof -
  have "2 \<le> sqrt (- 2 * ln (1 / 16))"
    using ln_16 by (intro real_le_rsqrt) simp
  then show ?thesis by simp
qed

lemma variate_high: "2 \<le> sqrt (- 2 * ln (1 / 256)) * cos (2 * pi * (1 / 8))"
proof -
  have "sqrt 8 \<le> sqrt (- 2 * ln (1 / 256))"
    using ln_256 by (intro real_sqrt_le_mono) simp
  moreover have "cos (2 * pi * (1 / 8)) = sqrt 2 / 2"
    using cos_45 by simp
  moreover have "sqrt 8 * (sqrt 2 / 2) = 2"
  proof -
    have "sqrt 8 * sqrt 2 = sqrt 16" by (simp add: real_sqrt_mult [symmetric])
    also have "\<dots> = 4" by (rule real_sqrt_unique) simp_all
    finally show ?thesis by simp
  qed
  ultimately show ?thesis
    by (metis mult_right_mono real_sqrt_ge_zero zero_le_divide_iff zero_le_numeral)
qed


section \<open>Animation\<close>

lemma index_apart:
  "(j::nat) * 3 + 2 \<noteq> i * 3" "j * 3 + 2 \<noteq> i * 3 + 1" "j * 3 + 2 \<noteq> Suc (i * 3)"
  "j < i \<Longrightarrow> j * 3 + 1 \<noteq> i * 3" "j < i \<Longrightarrow> Suc (j * 3) \<noteq> i * 3"
  by presburger+

text \<open>One call of \<open>animate\<close> on an aligned state.\<close>

lemma animate_aligned:
  assumes "aligned s"
  shows "\<exists>s'. animate s = Done s' \<and> aligned s' \<and> cfg s' = cfg s \<and> colors s' = colors s
    \<and> needsUpdate s' = Suc (needsUpdate s)
    \<and> length (particlesData s') = length (particlesData s)
    \<and> (\<forall>i < length (particlesData s).
          radius (particlesData s' ! i) = radius (particlesData s ! i)
        \<and> speed (particlesData s' ! i) = speed (particlesData s ! i)
        \<and> angle (particlesData s' ! i) = angle (particlesData s ! i) + speed (particlesData s ! i)
        \<and> positions s' ! (i * 3) = cos (angle (particlesData s' ! i)) * radius (particlesData s' ! i)
        \<and> positions s' ! (i * 3 + 1) = sin (angle (particlesData s' ! i)) * radius (particlesData s' ! i)
        \<and> positions s' ! (i * 3 + 2) = positions s ! (i * 3 + 2))"
proof -
  define L where "L = length (particlesData s)"
  have L: "nat (particleCount (cfg s)) = L" "length (positions s) = 3 * L" "length (colors s) = 3 * L"
    using assms by (simp_all add: aligned_def L_def)
  define P where "P = (\<lambda>n (t::scene).
      cfg t = cfg s \<and> colors t = colors s \<and> needsUpdate t = needsUpdate s
    \<and> length (particlesData t) = L \<and> length (positions t) = 3 * L
    \<and> (\<forall>j<L. radius (particlesData t ! j) = radius (particlesData s ! j)
            \<and> speed (particlesData t ! j) = speed (particlesData s ! j)
            \<and> angle (particlesData t ! j) =
                (if j < n then angle (particlesData s ! j) + speed (particlesData s ! j)
                 else angle (particlesData s ! j)))
    \<and> (\<forall>j<n. positions t ! (j * 3) = cos (angle (particlesData t ! j)) * radius (particlesData t ! j)
            \<and> positions t ! (j * 3 + 1) = sin (angle (particlesData t ! j)) * radius (particlesData t ! j))
    \<and> (\<forall>j. positions t ! (j * 3 + 2) = positions s ! (j * 3 + 2)))"
  have init: "P 0 s"
    by (simp add: P_def L L_def)
  have step: "\<exists>t'. animate_step i t = Done t' \<and> P (Suc i) t'" if "i < L" "P i t" for i t
  proof -
    define d where "d = (particlesData t ! i)\<lparr> angle := angle (particlesData t ! i) + speed (particlesData t ! i) \<rparr>"
    define t' where "t' = t\<lparr> particlesData := (particlesData t)[i := d],
                              positions := (positions t)[i * 3 := cos (angle d) * radius d,
                                                         i * 3 + 1 := sin (angle d) * radius d] \<rparr>"
    have lens: "length (particlesData t) = L" "length (positions t) = 3 * L"
      using that(2) by (simp_all add: P_def)
    have run: "animate_step i t = Done t'"
      using that(1) lens by (simp add: animate_step_def Let_def t'_def d_def)
    have frame: "cfg t' = cfg s \<and> colors t' = colors s \<and> needsUpdate t' = needsUpdate s
        \<and> length (particlesData t') = L \<and> length (positions t') = 3 * L"
      using that(2) by (simp add: P_def t'_def)
    have parts: "radius (particlesData t' ! j) = radius (particlesData s ! j)
            \<and> speed (particlesData t' ! j) = speed (particlesData s ! j)
            \<and> angle (particlesData t' ! j) =
                (if j < Suc i then angle (particlesData s ! j) + speed (particlesData s ! j)
                 else angle (particlesData s ! j))" if "j < L" for j
    proof (cases "j = i")
      case True
      have "particlesData t' ! j = d"
        using True \<open>i < L\<close> lens by (simp add: t'_def)
      then show ?thesis
        using \<open>P i t\<close> \<open>i < L\<close> True by (simp add: P_def d_def)
    next
      case False
      have "particlesData t' ! j = particlesData t ! j"
        using False by (simp add: t'_def)
      then show ?thesis
        using \<open>P i t\<close> \<open>j < L\<close> False by (auto simp: P_def)
    qed
    have xy: "positions t' ! (j * 3) = cos (angle (particlesData t' ! j)) * radius (particlesData t' ! j)
            \<and> positions t' ! (j * 3 + 1) = sin (angle (particlesData t' ! j)) * radius (particlesData t' ! j)"
      if "j < Suc i" for j
    proof (cases "j = i")
      case True
      have "particlesData t' ! i = d"
        using \<open>i < L\<close> lens by (simp add: t'_def)
      moreover have "positions t' ! (i * 3) = cos (angle d) * radius d"
        "positions t' ! (i * 3 + 1) = sin (angle d) * radius d"
        using \<open>i < L\<close> lens by (simp_all add: t'_def)
      ultimately show ?thesis
        using True by simp
    next
      case False
      then have "j < i" using that by simp
      then have "particlesData t' ! j = particlesData t ! j"
        "positions t' ! (j * 3) = positions t ! (j * 3)"
        "positions t' ! (j * 3 + 1) = positions t ! (j * 3 + 1)"
        by (simp_all add: t'_def index_apart)
      then show ?thesis
        using \<open>P i t\<close> \<open>j < i\<close> by (simp add: P_def)
    qed
    have z: "positions t' ! (j * 3 + 2) = positions s ! (j * 3 + 2)" for j
    proof -
      have "positions t' ! (j * 3 + 2) = positions t ! (j * 3 + 2)"
        using index_apart(1,2) [of j i] by (simp add: t'_def)
      then show ?thesis
        using \<open>P i t\<close> by (simp add: P_def)
    qed
    have "P (Suc i) t'"
      unfolding P_def using frame parts xy z by blast
    with run show ?thesis
      by blast
  qed
  from for_loop_total [of P s L animate_step, OF init step]
  obtain t where t: "for_loop L animate_step s = Done t" "P L t"
    by blast
  define s' where "s' = t\<lparr> needsUpdate := Suc (needsUpdate t) \<rparr>"
  have run: "animate s = Done s'"
    by (simp add: animate_def L t(1) s'_def)
  have "aligned s'"
    using t(2) L by (simp add: aligned_def s'_def P_def)
  moreover have "cfg s' = cfg s \<and> colors s' = colors s \<and> needsUpdate s' = Suc (needsUpdate s)
    \<and> length (particlesData s') = length (particlesData s)"
    using t(2) by (simp add: s'_def P_def L_def)
  moreover have "\<forall>i < length (particlesData s).
          radius (particlesData s' ! i) = radius (particlesData s ! i)
        \<and> speed (particlesData s' ! i) = speed (particlesData s ! i)
        \<and> angle (particlesData s' ! i) = angle (particlesData s ! i) + speed (particlesData s ! i)
        \<and> positions s' ! (i * 3) = cos (angle (particlesData s' ! i)) * radius (particlesData s' ! i)
        \<and> positions s' ! (i * 3 + 1) = sin (angle (particlesData s' ! i)) * radius (particlesData s' ! i)
        \<and> positions s' ! (i * 3 + 2) = positions s ! (i * 3 + 2)"
    using t(2) by (simp add: s'_def P_def L_def)
  ultimately show ?thesis
    using run by blast
qed

text \<open>Any number of calls of \<open>animate\<close> on an aligned state.\<close>

lemma ticks_aligned:
  assumes "aligned s"
  shows "\<exists>s'. ticks n s = Done s' \<and> aligned s' \<and> cfg s' = cfg s \<and> colors s' = colors s
    \<and> needsUpdate s' = needsUpdate s + n
    \<and> length (particlesData s') = length (particlesData s)
    \<and> (\<forall>i < length (particlesData s).
          radius (particlesData s' ! i) = radius (particlesData s ! i)
        \<and> speed (particlesData s' ! i) = speed (particlesData s ! i)
        \<and> angle (particlesData s' ! i) =
            angle (particlesData s ! i) + real n * speed (particlesData s ! i)
        \<and> positions s' ! (i * 3 + 2) = positions s ! (i * 3 + 2))"
proof (induction n)
  case 0
  with assms show ?case by simp
next
  case (Suc n)
  then obtain t where t: "ticks n s = Done t" "aligned t" "cfg t = cfg s" "colors t = colors s"
    "needsUpdate t = needsUpdate s + n" "length (particlesData t) = length (particlesData s)"
    and ti: "\<forall>i < length (particlesData s).
          radius (particlesData t ! i) = radius (particlesData s ! i)
        \<and> speed (particlesData t ! i) = speed (particlesData s ! i)
        \<and> angle (particlesData t ! i) =
            angle (particlesData s ! i) + real n * speed (particlesData s ! i)
        \<and> positions t ! (i * 3 + 2) = positions s ! (i * 3 + 2)"
    by blast
  from animate_aligned [OF t(2)]
  obtain s' where s': "animate t = Done s'" "aligned s'" "cfg s' = cfg t" "colors s' = colors t"
    "needsUpdate s' = Suc (needsUpdate t)" "length (particlesData s') = length (particlesData t)"
    and si: "\<forall>i < length (particlesData t).
          radius (particlesData s' ! i) = radius (particlesData t ! i)
        \<and> speed (particlesData s' ! i) = speed (particlesData t ! i)
        \<and> angle (particlesData s' ! i) = angle (particlesData t ! i) + speed (particlesData t ! i)
        \<and> positions s' ! (i * 3 + 2) = positions t ! (i * 3 + 2)"
    by blast
  have "ticks (Suc n) s = Done s'"
    by (simp add: t(1) s'(1))
  moreover have "\<forall>i < length (particlesData s).
          radius (particlesData s' ! i) = radius (particlesData s ! i)
        \<and> speed (particlesData s' ! i) = speed (particlesData s ! i)
        \<and> angle (particlesData s' ! i) =
            angle (particlesData s ! i) + real (Suc n) * speed (particlesData s ! i)
        \<and> positions s' ! (i * 3 + 2) = positions s ! (i * 3 + 2)"
    using ti si t(6) by (simp add: algebra_simps)
  ultimately show ?case
    using s' t by simp
qed

section \<open>A run of three particles\<close>

lemma demo_source_at:
  "demo_source 0 = 1 / 4" "demo_source 1 = 1 / 4" "demo_source 2 = 1 / 8"
  "demo_source 3 = 1 / 256" "demo_source 4 = 1 / 8" "demo_source 5 = 1 / 2"
  "demo_source 6 = 0" "demo_source 7 = 1 / 16" "demo_source 8 = 1 / 2" "demo_source 9 = 0"
  by (simp_all add: demo_source_def list_source_def)

lemma random_source_demo: "random_source demo_source"
  unfolding demo_source_def by (rule random_source_list) simp_all

lemma construct_demo: "construct engine_limit three_particles demo_source = Done demo_ring"
proof -
  let ?c = three_particles
  have c: "innerRadius ?c = 3" "outerRadius ?c = 5" "speedConstant ?c = 2 / 5"
    "color1 ?c = white" "color2 ?c = yellow" "color3 ?c = orange" "particleCount ?c = 3"
    "meanRadius ?c = 4" "stdDevRadius ?c = 1 / 2"
    by (simp_all add: three_particles_def revision2_def meanRadius_def stdDevRadius_def)
  have g0: "getNormalRandom demo_source 4 (1 / 2) 0 = Some (4, 2)"
    by (simp add: getNormalRandom_def resample_zero resample_nonzero demo_source_def list_source_def)
  obtain x1 where g1: "getNormalRandom demo_source 4 (1 / 2) 3 = Some (x1, 5)" "5 \<le> x1"
  proof
    show "getNormalRandom demo_source 4 (1 / 2) 3 =
        Some (sqrt (- 2 * ln (1 / 256)) * cos (2 * pi * (1 / 8)) * (1 / 2) + 4, 5)"
      by (simp add: getNormalRandom_def resample_zero resample_nonzero demo_source_def list_source_def)
    show "5 \<le> sqrt (- 2 * ln (1 / 256)) * cos (2 * pi * (1 / 8)) * (1 / 2) + 4"
      using variate_high by linarith
  qed
  obtain x2 where g2: "getNormalRandom demo_source 4 (1 / 2) 6 = Some (x2, 9)" "x2 \<le> 3"
  proof
    show "getNormalRandom demo_source 4 (1 / 2) 6 =
        Some (sqrt (- 2 * ln (1 / 16)) * cos (2 * pi * (1 / 2)) * (1 / 2) + 4, 9)"
      by (simp add: getNormalRandom_def resample_zero resample_nonzero demo_source_def list_source_def)
    show "sqrt (- 2 * ln (1 / 16)) * cos (2 * pi * (1 / 2)) * (1 / 2) + 4 \<le> 3"
      using variate_low by linarith
  qed
  have clamp: "max 3 (min 5 (4::real)) = 4" "max 3 (min 5 x1) = 5" "max 3 (min 5 x2) = 3"
    using g1(2) g2(2) by simp_all
  have grad: "gradient ?c 4 = yellow" "gradient ?c 5 = orange" "gradient ?c 3 = white"
    by (simp_all add: gradient_def c lerp_color_def lerp_def white_def yellow_def orange_def)
  have trig: "cos (1 / 8 * pi * 2) = sqrt 2 / 2" "sin (1 / 8 * pi * 2) = sqrt 2 / 2"
    "cos (1 / 2 * pi * 2) = - 1" "sin (1 / 2 * pi * 2) = 0"
    using cos_45 sin_45 by simp_all
  have "for_loop 3 (particle_step ?c demo_source) (0, init_scene ?c) = Done (10, demo_ring)"
    apply (simp only: numeral_3_eq_3 for_loop.simps)
    apply (simp add: c max_array_length_def particle_step_Some [OF g0 [folded c(8,9)]] clamp grad trig demo_source_at
         init_scene_def demo_ring_def white_def yellow_def orange_def
         particle_step_Some [OF g1(1) [folded c(8,9)]]
         particle_step_Some [OF g2(1) [folded c(8,9)]] cos_45 sin_45)
    apply (simp add: eval_nat_numeral)
    done
  then show ?thesis
    by (simp add: construct_def c engine_limit_def)
qed


section \<open>The sampler\<close>

lemma construct_particles:
  assumes "construct maxLength c rnd = Done s" and "p \<in> set (particlesData s)"
  shows "innerRadius c \<le> radius p" and "radius p \<le> max (innerRadius c) (outerRadius c)"
    and "radius p \<noteq> 0" and "speed p = speedConstant c / radius p"
    and "outerRadius c \<le> innerRadius c \<Longrightarrow> radius p = innerRadius c"
proof -
  obtain i where i: "i < length (particlesData s)" "p = particlesData s ! i"
    using assms(2) by (auto simp: in_set_conv_nth)
  from construct_Done [OF assms(1)] i
  obtain x where x: "radius p = max (innerRadius c) (min (outerRadius c) x)"
    and rest: "radius p \<noteq> 0" "speed p = speedConstant c / radius p"
    by blast
  show "innerRadius c \<le> radius p" "radius p \<le> max (innerRadius c) (outerRadius c)"
    "outerRadius c \<le> innerRadius c \<Longrightarrow> radius p = innerRadius c"
    using x by auto
  show "radius p \<noteq> 0" "speed p = speedConstant c / radius p"
    using rest by simp_all
qed

text \<open>Both ends of the band are reached by the first particle of some run.\<close>

lemma attain_inner:
  assumes "0 < particleCount c" "0 < innerRadius c" "innerRadius c < outerRadius c"
    and "particleCount c * 3 \<le> int maxLength" "particleCount c \<le> int max_array_length"
  shows "\<exists>rnd s. random_source rnd \<and> construct maxLength c rnd = Done s
           \<and> (\<exists>p \<in> set (particlesData s). radius p = innerRadius c)"
proof -
  define rnd where "rnd = list_source [1 / 16, 1 / 2] (1 / 4)"
  define x where "x = sqrt (- 2 * ln (1 / 16)) * cos (2 * pi * (1 / 2)) * stdDevRadius c + meanRadius c"
  have src: "random_source rnd"
    unfolding rnd_def by (rule random_source_list) simp_all
  have g: "getNormalRandom rnd (meanRadius c) (stdDevRadius c) 0 = Some (x, 2)"
    by (simp add: getNormalRandom_def resample_zero resample_nonzero rnd_def list_source_def x_def)
  have "sqrt (- 2 * ln (1 / 16)) * cos (2 * pi * (1 / 2)) * stdDevRadius c \<le> - 2 * stdDevRadius c"
    using variate_low assms(3) by (intro mult_right_mono) (simp_all add: stdDevRadius_def)
  then have "x \<le> innerRadius c"
    by (simp add: x_def stdDevRadius_def meanRadius_def field_simps)
  then have clamp: "max (innerRadius c) (min (outerRadius c) x) = innerRadius c"
    using assms(3) by simp
  obtain s where s: "construct maxLength c rnd = Done s"
    using construct_total [OF src assms(2)] assms by fastforce
  from construct_first [OF s assms(1) g]
  have "particlesData s \<noteq> []" "radius (particlesData s ! 0) = innerRadius c"
    by (simp_all add: clamp)
  then have "\<exists>p \<in> set (particlesData s). radius p = innerRadius c"
    by (metis length_greater_0_conv nth_mem)
  with src s show ?thesis
    by blast
qed

lemma attain_outer:
  assumes "0 < particleCount c" "0 < innerRadius c" "innerRadius c < outerRadius c"
    and "particleCount c * 3 \<le> int maxLength" "particleCount c \<le> int max_array_length"
  shows "\<exists>rnd s. random_source rnd \<and> construct maxLength c rnd = Done s
           \<and> (\<exists>p \<in> set (particlesData s). radius p = outerRadius c)"
proof -
  define rnd where "rnd = list_source [1 / 256, 1 / 8] (1 / 4)"
  define x where "x = sqrt (- 2 * ln (1 / 256)) * cos (2 * pi * (1 / 8)) * stdDevRadius c + meanRadius c"
  have src: "random_source rnd"
    unfolding rnd_def by (rule random_source_list) simp_all
  have g: "getNormalRandom rnd (meanRadius c) (stdDevRadius c) 0 = Some (x, 2)"
    by (simp add: getNormalRandom_def resample_zero resample_nonzero rnd_def list_source_def x_def)
  have "2 * stdDevRadius c \<le> sqrt (- 2 * ln (1 / 256)) * cos (2 * pi * (1 / 8)) * stdDevRadius c"
    using variate_high assms(3) by (intro mult_right_mono) (simp_all add: stdDevRadius_def)
  then have "outerRadius c \<le> x"
    by (simp add: x_def stdDevRadius_def meanRadius_def field_simps)
  then have clamp: "max (innerRadius c) (min (outerRadius c) x) = outerRadius c"
    using assms(3) by simp
  obtain s where s: "construct maxLength c rnd = Done s"
    using construct_total [OF src assms(2)] assms by fastforce
  from construct_first [OF s assms(1) g]
  have "particlesData s \<noteq> []" "radius (particlesData s ! 0) = outerRadius c"
    by (simp_all add: clamp)
  then have "\<exists>p \<in> set (particlesData s). radius p = outerRadius c"
    by (metis length_greater_0_conv nth_mem)
  with src s show ?thesis
    by blast
qed

text \<open>A loop that has thrown stays at that result however many iterations are asked for.\<close>

lemma for_loop_Throws_mono:
  assumes "for_loop m body s = Throws e" and "m \<le> n"
  shows "for_loop n body s = Throws e"
  using assms(2)
proof (induction n rule: dec_induct)
  case base
  show ?case by (rule assms(1))
next
  case (step n)
  then show ?case by simp
qed

text \<open>With more particles than an \<open>Array\<close> holds, the push after the last one that fits throws.\<close>

lemma construct_array_full:
  assumes "random_source rnd" and "0 < innerRadius c" and "innerRadius c \<noteq> outerRadius c"
    and "int max_array_length < particleCount c" and "particleCount c * 3 \<le> int maxLength"
  shows "construct maxLength c rnd = Throws RangeError"
proof -
  define P where "P = (\<lambda>(n::nat) (ks :: nat \<times> scene). length (particlesData (snd ks)) = n)"
  have "\<exists>ks. for_loop max_array_length (particle_step c rnd) (0, init_scene c) = Done ks
          \<and> P max_array_length ks"
  proof (rule for_loop_total)
    show "P 0 (0, init_scene c)"
      by (simp add: P_def init_scene_def)
  next
    fix i and t :: "nat \<times> scene"
    assume i: "i < max_array_length" and t: "P i t"
    obtain k s where ks: "t = (k, s)" by (cases t)
    have "length (particlesData s) < max_array_length"
      using i t ks by (simp add: P_def)
    from particle_step_total [OF assms(1-3) this, of i k]
    show "\<exists>t'. particle_step c rnd i t = Done t' \<and> P (Suc i) t'"
      using t ks by (auto simp: P_def)
  qed
  then obtain k s where full: "for_loop max_array_length (particle_step c rnd) (0, init_scene c) = Done (k, s)"
    "length (particlesData s) = max_array_length"
    by (auto simp: P_def)
  from getNormalRandom_total [OF assms(1)]
  obtain x k1 where x: "getNormalRandom rnd (meanRadius c) (stdDevRadius c) k = Some (x, k1)"
    by blast
  have "max (innerRadius c) (min (outerRadius c) x) \<noteq> 0"
    using assms(2) by simp
  then have "particle_step c rnd max_array_length (k, s) = Throws RangeError"
    using full(2) by (simp add: particle_step_Some [OF x])
  then have "for_loop (Suc max_array_length) (particle_step c rnd) (0, init_scene c) = Throws RangeError"
    using full(1) by simp
  moreover have "Suc max_array_length \<le> nat (particleCount c)"
    using assms(4) by simp
  ultimately have "for_loop (nat (particleCount c)) (particle_step c rnd) (0, init_scene c)
      = Throws RangeError"
    by (rule for_loop_Throws_mono)
  then show ?thesis
    using assms(4,5) by (simp add: construct_def)
qed

text \<open>
  C2, within the lengths of arrays. For every input with \<open>particleCount > 0\<close> and
  \<open>0 < innerRadius < outerRadius\<close> whose \<open>3 * particleCount\<close> is a length the engine allocates
  and whose \<open>particleCount\<close> is a length of an \<open>Array\<close>, on every random source (values in
  \<open>[0, 1)\<close>, not ending in zeros) the construction completes with exactly \<open>particleCount\<close>
  particles, each with its radius in the closed interval from \<open>innerRadius\<close> to
  \<open>outerRadius\<close>; and both bounds are attained: some run has a particle with radius
  \<open>innerRadius\<close> and some run has one with radius \<open>outerRadius\<close>, the clamped values.
\<close>

theorem sampler_count_and_band:
  assumes "0 < particleCount c" and "0 < innerRadius c" and "innerRadius c < outerRadius c"
    and "particleCount c * 3 \<le> int maxLength" and "particleCount c \<le> int max_array_length"
  shows "(\<forall>rnd. random_source rnd \<longrightarrow>
            (\<exists>s. construct maxLength c rnd = Done s
                \<and> length (particlesData s) = nat (particleCount c)
                \<and> (\<forall>p \<in> set (particlesData s).
                      innerRadius c \<le> radius p \<and> radius p \<le> outerRadius c)))
       \<and> (\<exists>rnd s. random_source rnd \<and> construct maxLength c rnd = Done s
                \<and> (\<exists>p \<in> set (particlesData s). radius p = innerRadius c))
       \<and> (\<exists>rnd s. random_source rnd \<and> construct maxLength c rnd = Done s
                \<and> (\<exists>p \<in> set (particlesData s). radius p = outerRadius c))"
proof (intro conjI allI impI)
  fix rnd
  assume src: "random_source rnd"
  obtain s where s: "construct maxLength c rnd = Done s"
    using construct_total [OF src assms(2)] assms by fastforce
  have "length (particlesData s) = nat (particleCount c)"
    using construct_Done [OF s] by (simp add: aligned_def)
  moreover have "innerRadius c \<le> radius p \<and> radius p \<le> outerRadius c"
    if "p \<in> set (particlesData s)" for p
    using construct_particles(1,2) [OF s that] assms(3) by simp
  ultimately show "\<exists>s. construct maxLength c rnd = Done s
      \<and> length (particlesData s) = nat (particleCount c)
      \<and> (\<forall>p \<in> set (particlesData s). innerRadius c \<le> radius p \<and> radius p \<le> outerRadius c)"
    using s by blast
next
  show "\<exists>rnd s. random_source rnd \<and> construct maxLength c rnd = Done s
                \<and> (\<exists>p \<in> set (particlesData s). radius p = innerRadius c)"
    using assms by (rule attain_inner)
  show "\<exists>rnd s. random_source rnd \<and> construct maxLength c rnd = Done s
                \<and> (\<exists>p \<in> set (particlesData s). radius p = outerRadius c)"
    using assms by (rule attain_outer)
qed

theorem sampler_count_and_band_witness:
  "0 < particleCount revision2 \<and> 0 < innerRadius revision2
   \<and> innerRadius revision2 < outerRadius revision2
   \<and> particleCount revision2 * 3 \<le> int engine_limit
   \<and> particleCount revision2 \<le> int max_array_length \<and> random_source demo_source
   \<and> (\<exists>s. construct engine_limit revision2 demo_source = Done s \<and> length (particlesData s) = 20000
          \<and> (\<forall>p \<in> set (particlesData s). 3 \<le> radius p \<and> radius p \<le> 5))"
proof -
  have v: "0 < particleCount revision2" "0 < innerRadius revision2"
    "innerRadius revision2 < outerRadius revision2"
    "particleCount revision2 * 3 \<le> int engine_limit"
    "particleCount revision2 \<le> int max_array_length"
    by (simp_all add: revision2_def engine_limit_def max_array_length_def)
  from sampler_count_and_band [OF v] random_source_demo
  have "\<exists>s. construct engine_limit revision2 demo_source = Done s
          \<and> length (particlesData s) = nat (particleCount revision2)
          \<and> (\<forall>p \<in> set (particlesData s).
                innerRadius revision2 \<le> radius p \<and> radius p \<le> outerRadius revision2)"
    by blast
  then show ?thesis
    using v random_source_demo by (simp add: revision2_def)
qed

text \<open>
  C2 without these bounds fails, on inputs that are valid by its words. With \<open>10^16\<close>
  particles the allocation of the position buffer throws a \<open>RangeError\<close>, even under the
  largest limit the language allows an engine; with \<open>2^32\<close> particles, under that limit, the
  push of the last particle throws one. In both runs the sampler does not complete with
  \<open>particleCount\<close> particles.
\<close>

theorem sampler_over_long:
  "0 < particleCount over_long \<and> 0 < innerRadius over_long
   \<and> innerRadius over_long < outerRadius over_long \<and> random_source demo_source
   \<and> construct language_limit over_long demo_source = Throws RangeError
   \<and> 0 < particleCount array_full \<and> 0 < innerRadius array_full
   \<and> innerRadius array_full < outerRadius array_full
   \<and> construct language_limit array_full demo_source = Throws RangeError"
proof -
  have "construct language_limit over_long demo_source = Throws RangeError"
    by (simp add: construct_def over_long_def revision2_def language_limit_def)
  moreover have "construct language_limit array_full demo_source = Throws RangeError"
    by (rule construct_array_full [OF random_source_demo])
      (simp_all add: array_full_def revision2_def language_limit_def max_array_length_def)
  ultimately show ?thesis
    using random_source_demo by (simp add: over_long_def array_full_def revision2_def)
qed

text \<open>
  C3. On valid inputs with a positive speed constant (and a \<open>particleCount\<close> within the
  lengths of arrays, so that particles are produced), every particle the sampler produces has
  \<open>speed = speedConstant / radius\<close>, its speed is positive (one direction of rotation for
  all), and the speed decreases strictly with the radius: of two particles, the one with the
  larger radius has the smaller speed, and with radii in the order \<open>\<le>\<close> the speeds are in the
  opposite order.
\<close>

theorem speed_inverse_radius:
  assumes "0 < particleCount c" and "0 < innerRadius c" and "innerRadius c < outerRadius c"
    and "0 < speedConstant c" and "random_source rnd"
    and "particleCount c * 3 \<le> int maxLength" and "particleCount c \<le> int max_array_length"
  shows "\<exists>s. construct maxLength c rnd = Done s
    \<and> (\<forall>p \<in> set (particlesData s). speed p = speedConstant c / radius p \<and> 0 < speed p)
    \<and> (\<forall>p \<in> set (particlesData s). \<forall>q \<in> set (particlesData s).
          (radius p < radius q \<longrightarrow> speed q < speed p)
        \<and> (radius p \<le> radius q \<longrightarrow> speed q \<le> speed p))"
proof -
  obtain s where s: "construct maxLength c rnd = Done s"
    using construct_total [OF assms(5,2)] assms by fastforce
  have pos: "0 < radius p" if "p \<in> set (particlesData s)" for p
    using construct_particles(1) [OF s that] assms(2) by simp
  have sp: "speed p = speedConstant c / radius p" if "p \<in> set (particlesData s)" for p
    using construct_particles(4) [OF s that] .
  have "speed p = speedConstant c / radius p \<and> 0 < speed p" if "p \<in> set (particlesData s)" for p
    using sp [OF that] pos [OF that] assms(4) by simp
  moreover have "(radius p < radius q \<longrightarrow> speed q < speed p)
        \<and> (radius p \<le> radius q \<longrightarrow> speed q \<le> speed p)"
    if "p \<in> set (particlesData s)" "q \<in> set (particlesData s)" for p q
    using sp [OF that(1)] sp [OF that(2)] pos [OF that(1)] pos [OF that(2)] assms(4)
    by (simp add: frac_less2 frac_le)
  ultimately show ?thesis
    using s by blast
qed

theorem speed_inverse_radius_witness:
  "0 < particleCount three_particles \<and> 0 < innerRadius three_particles
   \<and> innerRadius three_particles < outerRadius three_particles
   \<and> 0 < speedConstant three_particles \<and> random_source demo_source
   \<and> particleCount three_particles * 3 \<le> int engine_limit
   \<and> particleCount three_particles \<le> int max_array_length
   \<and> construct engine_limit three_particles demo_source = Done demo_ring
   \<and> map speed (particlesData demo_ring) = [(2 / 5) / 4, (2 / 5) / 5, (2 / 5) / 3]
   \<and> (\<exists>s. construct engine_limit three_particles demo_source = Done s
      \<and> (\<forall>p \<in> set (particlesData s). speed p = 2 / 5 / radius p \<and> 0 < speed p)
      \<and> (\<forall>p \<in> set (particlesData s). \<forall>q \<in> set (particlesData s).
          (radius p < radius q \<longrightarrow> speed q < speed p)
        \<and> (radius p \<le> radius q \<longrightarrow> speed q \<le> speed p)))"
proof -
  have v: "0 < particleCount three_particles" "0 < innerRadius three_particles"
    "innerRadius three_particles < outerRadius three_particles"
    "0 < speedConstant three_particles"
    by (simp_all add: three_particles_def revision2_def)
  have fits: "particleCount three_particles * 3 \<le> int engine_limit"
    "particleCount three_particles \<le> int max_array_length"
    by (simp_all add: three_particles_def revision2_def engine_limit_def max_array_length_def)
  have sc: "speedConstant three_particles = 2 / 5"
    by (simp add: three_particles_def revision2_def)
  from speed_inverse_radius [OF v random_source_demo fits]
  show ?thesis
    using v fits random_source_demo construct_demo by (simp add: sc) (simp add: demo_ring_def)
qed

text \<open>
  C10. On valid inputs with a positive speed constant (and a \<open>particleCount\<close> within the
  lengths of arrays, so that particles are produced), the speed of every particle the sampler
  produces lies between \<open>speedConstant / outerRadius\<close> and \<open>speedConstant / innerRadius\<close>; hence
  at every later call of \<open>animate\<close> the angle of a particle grows by at most
  \<open>speedConstant / innerRadius\<close>.
\<close>

theorem speed_bounds:
  assumes "0 < particleCount c" and "0 < innerRadius c" and "innerRadius c < outerRadius c"
    and "0 < speedConstant c" and "random_source rnd"
    and "particleCount c * 3 \<le> int maxLength" and "particleCount c \<le> int max_array_length"
  shows "\<exists>s. construct maxLength c rnd = Done s
    \<and> (\<forall>p \<in> set (particlesData s).
          speedConstant c / outerRadius c \<le> speed p \<and> speed p \<le> speedConstant c / innerRadius c)
    \<and> (\<forall>n. \<exists>s1 s2. ticks n s = Done s1 \<and> animate s1 = Done s2
          \<and> (\<forall>i < length (particlesData s).
                angle (particlesData s2 ! i) - angle (particlesData s1 ! i)
                  \<le> speedConstant c / innerRadius c))"
proof -
  obtain s where s: "construct maxLength c rnd = Done s"
    using construct_total [OF assms(5,2)] assms by fastforce
  have bounds: "speedConstant c / outerRadius c \<le> speed p \<and> speed p \<le> speedConstant c / innerRadius c"
    if "p \<in> set (particlesData s)" for p
  proof -
    have "innerRadius c \<le> radius p" "radius p \<le> outerRadius c"
      using construct_particles(1,2) [OF s that] assms(3) by simp_all
    moreover have "speed p = speedConstant c / radius p"
      using construct_particles(4) [OF s that] .
    ultimately show ?thesis
      using assms(2,4) by (simp add: frac_le)
  qed
  have al: "aligned s"
    using construct_Done [OF s] by simp
  have tick: "\<exists>s1 s2. ticks n s = Done s1 \<and> animate s1 = Done s2
          \<and> (\<forall>i < length (particlesData s).
                angle (particlesData s2 ! i) - angle (particlesData s1 ! i)
                  \<le> speedConstant c / innerRadius c)" for n
  proof -
    from ticks_aligned [OF al, of n]
    obtain s1 where s1: "ticks n s = Done s1" "aligned s1"
      "length (particlesData s1) = length (particlesData s)"
      "\<forall>i < length (particlesData s). speed (particlesData s1 ! i) = speed (particlesData s ! i)"
      by blast
    from animate_aligned [OF s1(2)]
    obtain s2 where s2: "animate s1 = Done s2"
      "\<forall>i < length (particlesData s1).
         angle (particlesData s2 ! i) = angle (particlesData s1 ! i) + speed (particlesData s1 ! i)"
      by blast
    have "angle (particlesData s2 ! i) - angle (particlesData s1 ! i) \<le> speedConstant c / innerRadius c"
      if "i < length (particlesData s)" for i
    proof -
      have "angle (particlesData s2 ! i) - angle (particlesData s1 ! i) = speed (particlesData s ! i)"
        using that s1(3,4) s2(2) by simp
      with bounds [of "particlesData s ! i"] that show ?thesis
        by simp
    qed
    with s1(1) s2(1) show ?thesis
      by blast
  qed
  from s bounds tick show ?thesis
    by blast
qed

theorem speed_bounds_witness:
  "0 < particleCount revision1 \<and> 0 < innerRadius revision1
   \<and> innerRadius revision1 < outerRadius revision1
   \<and> 0 < speedConstant revision1 \<and> random_source demo_source
   \<and> particleCount revision1 * 3 \<le> int engine_limit
   \<and> particleCount revision1 \<le> int max_array_length
   \<and> (\<exists>s. construct engine_limit revision1 demo_source = Done s
      \<and> (\<forall>p \<in> set (particlesData s). 1 / 50 \<le> speed p \<and> speed p \<le> 1 / 20)
      \<and> (\<forall>n. \<exists>s1 s2. ticks n s = Done s1 \<and> animate s1 = Done s2
          \<and> (\<forall>i < length (particlesData s).
                angle (particlesData s2 ! i) - angle (particlesData s1 ! i) \<le> 1 / 20)))"
proof -
  have v: "0 < particleCount revision1" "0 < innerRadius revision1"
    "innerRadius revision1 < outerRadius revision1"
    "0 < speedConstant revision1"
    by (simp_all add: revision1_def)
  have fits: "particleCount revision1 * 3 \<le> int engine_limit"
    "particleCount revision1 \<le> int max_array_length"
    by (simp_all add: revision1_def engine_limit_def max_array_length_def)
  have sc: "speedConstant revision1 / outerRadius revision1 = 1 / 50"
    "speedConstant revision1 / innerRadius revision1 = 1 / 20"
    by (simp_all add: revision1_def)
  from speed_bounds [OF v random_source_demo fits]
  show ?thesis
    using v fits random_source_demo by (simp add: sc)
qed

section \<open>Colours\<close>

text \<open>
  C7. The colour of every particle is the gradient of the specification at its radius: with
  \<open>t = (radius - innerRadius) / (outerRadius - innerRadius)\<close>, the interpolation from the
  inner to the middle colour at \<open>2t\<close> if \<open>t < 1/2\<close> and from the middle to the outer colour at
  \<open>2(t - 1/2)\<close> otherwise, channel by channel; the colour buffer has three entries for each
  particle and those of particle \<open>i\<close> are the red, green and blue channel of that colour.
\<close>

theorem colors_follow_gradient:
  assumes "construct maxLength c rnd = Done s" and "i < length (particlesData s)"
  shows "length (colors s) = 3 * length (particlesData s)
    \<and> colors s ! (i * 3) = r (gradient c (radius (particlesData s ! i)))
    \<and> colors s ! (i * 3 + 1) = g (gradient c (radius (particlesData s ! i)))
    \<and> colors s ! (i * 3 + 2) = b (gradient c (radius (particlesData s ! i)))"
  using construct_Done [OF assms(1)] assms(2) by (simp add: aligned_def)

theorem colors_follow_gradient_witness:
  "construct engine_limit three_particles demo_source = Done demo_ring
   \<and> length (colors demo_ring) = 9
   \<and> radius (particlesData demo_ring ! 0) = 4
   \<and> gradient three_particles 4 = lerp_color yellow orange 0
   \<and> colors demo_ring ! (0 * 3) = r (gradient three_particles 4)
   \<and> colors demo_ring ! (0 * 3 + 1) = g (gradient three_particles 4)
   \<and> colors demo_ring ! (0 * 3 + 2) = b (gradient three_particles 4)"
proof -
  have "gradient three_particles 4 = lerp_color yellow orange 0"
    by (simp add: gradient_def three_particles_def revision2_def)
  moreover have "radius (particlesData demo_ring ! 0) = 4" "length (particlesData demo_ring) = 3"
    by (simp_all add: demo_ring_def)
  ultimately show ?thesis
    using colors_follow_gradient [OF construct_demo, of 0] construct_demo by simp
qed

text \<open>
  C8. A particle whose radius is \<open>innerRadius\<close> has \<open>t = 0\<close> and the inner reference colour in
  its three entries of the colour buffer; one whose radius is \<open>outerRadius\<close> has \<open>t = 1\<close> (the
  branch from the middle to the outer colour, at parameter 1) and the outer reference colour.
\<close>

theorem boundary_colors:
  assumes "construct maxLength c rnd = Done s" and "i < length (particlesData s)"
  shows "(radius (particlesData s ! i) = innerRadius c \<longrightarrow>
            (radius (particlesData s ! i) - innerRadius c) / (outerRadius c - innerRadius c) = 0
          \<and> colors s ! (i * 3) = r (color1 c) \<and> colors s ! (i * 3 + 1) = g (color1 c)
          \<and> colors s ! (i * 3 + 2) = b (color1 c))
       \<and> (radius (particlesData s ! i) = outerRadius c \<longrightarrow>
            (radius (particlesData s ! i) - innerRadius c) / (outerRadius c - innerRadius c) = 1
          \<and> colors s ! (i * 3) = r (color3 c) \<and> colors s ! (i * 3 + 1) = g (color3 c)
          \<and> colors s ! (i * 3 + 2) = b (color3 c))"
proof -
  from construct_Done [OF assms(1)] assms(2)
  have ne: "outerRadius c \<noteq> innerRadius c"
    and col: "colors s ! (i * 3) = r (gradient c (radius (particlesData s ! i)))"
      "colors s ! (i * 3 + 1) = g (gradient c (radius (particlesData s ! i)))"
      "colors s ! (i * 3 + 2) = b (gradient c (radius (particlesData s ! i)))"
    by simp_all
  have "gradient c (innerRadius c) = color1 c"
    by (simp add: gradient_def lerp_color_def lerp_def)
  moreover have "gradient c (outerRadius c) = color3 c"
    using ne by (simp add: gradient_def lerp_color_def lerp_def)
  ultimately show ?thesis
    using col ne by auto
qed

theorem boundary_colors_witness:
  "construct engine_limit three_particles demo_source = Done demo_ring
   \<and> radius (particlesData demo_ring ! 2) = innerRadius three_particles
   \<and> colors demo_ring ! (2 * 3) = r white \<and> colors demo_ring ! (2 * 3 + 1) = g white
   \<and> colors demo_ring ! (2 * 3 + 2) = b white
   \<and> radius (particlesData demo_ring ! 1) = outerRadius three_particles
   \<and> colors demo_ring ! (1 * 3) = r orange \<and> colors demo_ring ! (1 * 3 + 1) = g orange
   \<and> colors demo_ring ! (1 * 3 + 2) = b orange"
proof -
  have c: "innerRadius three_particles = 3" "outerRadius three_particles = 5"
    "color1 three_particles = white" "color3 three_particles = orange"
    by (simp_all add: three_particles_def revision2_def)
  have p: "radius (particlesData demo_ring ! 2) = 3" "radius (particlesData demo_ring ! 1) = 5"
    "length (particlesData demo_ring) = 3"
    by (simp_all add: demo_ring_def)
  from boundary_colors [OF construct_demo, of 2] boundary_colors [OF construct_demo, of 1]
  show ?thesis
    using construct_demo p by (simp add: c)
qed

section \<open>Ticks\<close>

text \<open>
  C4. After \<open>n\<close> calls of \<open>animate\<close> on a constructed ring, for every \<open>n\<close>, the angle of every
  particle is its angle at construction plus \<open>n\<close> times its speed, and its radius is the one
  it was constructed with. The calls all complete.
\<close>

theorem ticks_angle:
  assumes "construct maxLength c rnd = Done s0"
  shows "\<exists>s. ticks n s0 = Done s
    \<and> length (particlesData s) = length (particlesData s0)
    \<and> (\<forall>i < length (particlesData s0).
          angle (particlesData s ! i) =
            angle (particlesData s0 ! i) + real n * speed (particlesData s0 ! i)
        \<and> radius (particlesData s ! i) = radius (particlesData s0 ! i))"
proof -
  have "aligned s0"
    using construct_Done [OF assms] by simp
  from ticks_aligned [OF this, of n] show ?thesis
    by blast
qed

theorem ticks_angle_witness:
  "construct engine_limit three_particles demo_source = Done demo_ring
   \<and> (\<exists>s. ticks 7 demo_ring = Done s \<and> length (particlesData s) = 3
        \<and> angle (particlesData s ! 1) = pi + 7 * (2 / 25)
        \<and> radius (particlesData s ! 1) = 5)"
proof -
  have p: "length (particlesData demo_ring) = 3" "particlesData demo_ring ! 1 = \<lparr> radius = 5, angle = pi, speed = 2 / 25 \<rparr>"
    by (simp_all add: demo_ring_def)
  from ticks_angle [OF construct_demo, of 7]
  obtain s where "ticks 7 demo_ring = Done s" "length (particlesData s) = 3"
    "\<forall>i < 3. angle (particlesData s ! i) =
            angle (particlesData demo_ring ! i) + real 7 * speed (particlesData demo_ring ! i)
        \<and> radius (particlesData s ! i) = radius (particlesData demo_ring ! i)"
    unfolding p(1) by blast
  then have "ticks 7 demo_ring = Done s \<and> length (particlesData s) = 3
        \<and> angle (particlesData s ! 1) = pi + 7 * (2 / 25)
        \<and> radius (particlesData s ! 1) = 5"
    using p(2) by simp
  then show ?thesis
    using construct_demo by blast
qed


text \<open>
  C5. A call of \<open>animate\<close>, in any state a constructed ring reaches by earlier calls, sets for
  every particle \<open>i\<close> the entries \<open>3i\<close> and \<open>3i + 1\<close> of the position buffer to the cosine
  and the sine of the angle it has just incremented by the speed, times the radius; entry
  \<open>3i + 2\<close> keeps its value, which is 0; and \<open>needsUpdate\<close> is signalled once.
\<close>

theorem animate_positions:
  assumes "construct maxLength c rnd = Done s0" and "ticks n s0 = Done s"
  shows "\<exists>s'. animate s = Done s'
    \<and> needsUpdate s' = Suc (needsUpdate s)
    \<and> length (particlesData s') = length (particlesData s)
    \<and> length (positions s') = 3 * length (particlesData s)
    \<and> (\<forall>i < length (particlesData s).
          angle (particlesData s' ! i) = angle (particlesData s ! i) + speed (particlesData s ! i)
        \<and> positions s' ! (i * 3) = cos (angle (particlesData s' ! i)) * radius (particlesData s ! i)
        \<and> positions s' ! (i * 3 + 1) = sin (angle (particlesData s' ! i)) * radius (particlesData s ! i)
        \<and> positions s' ! (i * 3 + 2) = positions s ! (i * 3 + 2)
        \<and> positions s' ! (i * 3 + 2) = 0)"
proof -
  have built: "aligned s0" "\<forall>i < length (particlesData s0). positions s0 ! (i * 3 + 2) = 0"
    using construct_Done [OF assms(1)] by simp_all
  from ticks_aligned [OF built(1), of n] assms(2)
  have s: "aligned s" "length (particlesData s) = length (particlesData s0)"
    "\<forall>i < length (particlesData s0). positions s ! (i * 3 + 2) = positions s0 ! (i * 3 + 2)"
    by auto
  have z: "\<forall>i < length (particlesData s). positions s ! (i * 3 + 2) = 0"
    using s(2,3) built(2) by simp
  from animate_aligned [OF s(1)]
  obtain s' where s': "animate s = Done s'" "aligned s'" "needsUpdate s' = Suc (needsUpdate s)"
    "length (particlesData s') = length (particlesData s)"
    and each: "\<forall>i < length (particlesData s).
          radius (particlesData s' ! i) = radius (particlesData s ! i)
        \<and> speed (particlesData s' ! i) = speed (particlesData s ! i)
        \<and> angle (particlesData s' ! i) = angle (particlesData s ! i) + speed (particlesData s ! i)
        \<and> positions s' ! (i * 3) = cos (angle (particlesData s' ! i)) * radius (particlesData s' ! i)
        \<and> positions s' ! (i * 3 + 1) = sin (angle (particlesData s' ! i)) * radius (particlesData s' ! i)
        \<and> positions s' ! (i * 3 + 2) = positions s ! (i * 3 + 2)"
    by blast
  have "length (positions s') = 3 * length (particlesData s)"
    using s'(2,4) by (simp add: aligned_def)
  moreover have "\<forall>i < length (particlesData s).
          angle (particlesData s' ! i) = angle (particlesData s ! i) + speed (particlesData s ! i)
        \<and> positions s' ! (i * 3) = cos (angle (particlesData s' ! i)) * radius (particlesData s ! i)
        \<and> positions s' ! (i * 3 + 1) = sin (angle (particlesData s' ! i)) * radius (particlesData s ! i)
        \<and> positions s' ! (i * 3 + 2) = positions s ! (i * 3 + 2)
        \<and> positions s' ! (i * 3 + 2) = 0"
    using each z by simp
  ultimately show ?thesis
    using s'(1,3,4) by blast
qed

theorem animate_positions_witness:
  "construct engine_limit three_particles demo_source = Done demo_ring \<and> ticks 0 demo_ring = Done demo_ring
   \<and> (\<exists>s'. animate demo_ring = Done s' \<and> needsUpdate s' = 1
        \<and> length (positions s') = 9
        \<and> angle (particlesData s' ! 1) = pi + 2 / 25
        \<and> positions s' ! (1 * 3) = cos (pi + 2 / 25) * 5
        \<and> positions s' ! (1 * 3 + 1) = sin (pi + 2 / 25) * 5
        \<and> positions s' ! (1 * 3 + 2) = 0)"
proof -
  have t: "ticks 0 demo_ring = Done demo_ring"
    by simp
  have p: "length (particlesData demo_ring) = 3" "needsUpdate demo_ring = 0"
    "particlesData demo_ring ! 1 = \<lparr> radius = 5, angle = pi, speed = 2 / 25 \<rparr>"
    by (simp_all add: demo_ring_def)
  from animate_positions [OF construct_demo t]
  obtain s' where s': "animate demo_ring = Done s'" "needsUpdate s' = Suc (needsUpdate demo_ring)"
    "length (positions s') = 3 * length (particlesData demo_ring)"
    and each: "\<forall>i < length (particlesData demo_ring).
          angle (particlesData s' ! i) =
            angle (particlesData demo_ring ! i) + speed (particlesData demo_ring ! i)
        \<and> positions s' ! (i * 3) = cos (angle (particlesData s' ! i)) * radius (particlesData demo_ring ! i)
        \<and> positions s' ! (i * 3 + 1) = sin (angle (particlesData s' ! i)) * radius (particlesData demo_ring ! i)
        \<and> positions s' ! (i * 3 + 2) = positions demo_ring ! (i * 3 + 2)
        \<and> positions s' ! (i * 3 + 2) = 0"
    by blast
  have "1 < length (particlesData demo_ring)"
    by (simp add: p(1))
  with each have "angle (particlesData s' ! 1) =
            angle (particlesData demo_ring ! 1) + speed (particlesData demo_ring ! 1)
        \<and> positions s' ! (1 * 3) = cos (angle (particlesData s' ! 1)) * radius (particlesData demo_ring ! 1)
        \<and> positions s' ! (1 * 3 + 1) = sin (angle (particlesData s' ! 1)) * radius (particlesData demo_ring ! 1)
        \<and> positions s' ! (1 * 3 + 2) = 0"
    by blast
  then have "animate demo_ring = Done s' \<and> needsUpdate s' = 1
        \<and> length (positions s') = 9
        \<and> angle (particlesData s' ! 1) = pi + 2 / 25
        \<and> positions s' ! (1 * 3) = cos (pi + 2 / 25) * 5
        \<and> positions s' ! (1 * 3 + 1) = sin (pi + 2 / 25) * 5
        \<and> positions s' ! (1 * 3 + 2) = 0"
    using s' p by simp
  then show ?thesis
    using construct_demo t by blast
qed

text \<open>
  C9. Across any number of calls of \<open>animate\<close> on a constructed ring, the colour buffer, the
  speed of every particle and every third (z) entry of the position buffer are what they
  were at construction.
\<close>

theorem ticks_frame:
  assumes "construct maxLength c rnd = Done s0"
  shows "\<exists>s. ticks n s0 = Done s
    \<and> colors s = colors s0
    \<and> map speed (particlesData s) = map speed (particlesData s0)
    \<and> (\<forall>i < length (particlesData s0). positions s ! (i * 3 + 2) = positions s0 ! (i * 3 + 2))"
proof -
  have "aligned s0"
    using construct_Done [OF assms] by simp
  from ticks_aligned [OF this, of n]
  obtain s where s: "ticks n s0 = Done s" "colors s = colors s0"
    "length (particlesData s) = length (particlesData s0)"
    and each: "\<forall>i < length (particlesData s0).
          speed (particlesData s ! i) = speed (particlesData s0 ! i)
        \<and> positions s ! (i * 3 + 2) = positions s0 ! (i * 3 + 2)"
    by blast
  have "map speed (particlesData s) = map speed (particlesData s0)"
    using s(3) each by (intro nth_equalityI) simp_all
  with s each show ?thesis
    by blast
qed

theorem ticks_frame_witness:
  "construct engine_limit three_particles demo_source = Done demo_ring
   \<and> (\<exists>s. ticks 60 demo_ring = Done s
        \<and> colors s = [1, 1, 0, 1, 165 / 255, 0, 1, 1, 1]
        \<and> map speed (particlesData s) = [1 / 10, 2 / 25, 2 / 15]
        \<and> positions s ! (0 * 3 + 2) = 0 \<and> positions s ! (1 * 3 + 2) = 0
        \<and> positions s ! (2 * 3 + 2) = 0)"
proof -
  from ticks_frame [OF construct_demo, of 60]
  obtain s where s: "ticks 60 demo_ring = Done s" "colors s = colors demo_ring"
    "map speed (particlesData s) = map speed (particlesData demo_ring)"
    and z: "\<forall>i < length (particlesData demo_ring).
              positions s ! (i * 3 + 2) = positions demo_ring ! (i * 3 + 2)"
    by blast
  have "positions s ! (0 * 3 + 2) = positions demo_ring ! (0 * 3 + 2)"
    "positions s ! (1 * 3 + 2) = positions demo_ring ! (1 * 3 + 2)"
    "positions s ! (2 * 3 + 2) = positions demo_ring ! (2 * 3 + 2)"
    using z [rule_format, of 0] z [rule_format, of 1] z [rule_format, of 2]
    by (simp_all add: demo_ring_def)
  then have "ticks 60 demo_ring = Done s
        \<and> colors s = [1, 1, 0, 1, 165 / 255, 0, 1, 1, 1]
        \<and> map speed (particlesData s) = [1 / 10, 2 / 25, 2 / 15]
        \<and> positions s ! (0 * 3 + 2) = 0 \<and> positions s ! (1 * 3 + 2) = 0
        \<and> positions s ! (2 * 3 + 2) = 0"
    using s by (simp add: demo_ring_def)
  then have "\<exists>s. ticks 60 demo_ring = Done s
        \<and> colors s = [1, 1, 0, 1, 165 / 255, 0, 1, 1, 1]
        \<and> map speed (particlesData s) = [1 / 10, 2 / 25, 2 / 15]
        \<and> positions s ! (0 * 3 + 2) = 0 \<and> positions s ! (1 * 3 + 2) = 0
        \<and> positions s ! (2 * 3 + 2) = 0"
    by (rule exI)
  with construct_demo show ?thesis
    by (rule conjI)
qed

section \<open>Inputs outside the contract\<close>







end
